theory Spec2Isabelle
  imports Complex_Main
begin

section \<open>Query samplers of \<open>cardinal/base.py\<close>\<close>

text \<open>
  The pool \<open>X\<close> is a list of rows; \<open>X.shape[0]\<close> is its length. Index arrays are lists of
  natural numbers. Scores are real numbers (an idealisation of numpy's \<open>float64\<close>; no NaN
  among the scores). Exceptions are values of type \<open>error\<close>; a call returns its result,
  the updated instance and the warnings it issued.
\<close>

subsection \<open>Errors, warnings and formatting\<close>

datatype error = ValueError string | IndexError | AttributeError string

datatype warning = NotEnoughSamplesWarning string

fun str_nat :: "nat \<Rightarrow> string" where
  "str_nat n =
     (if n < 10 then [''0123456789'' ! n]
      else str_nat (n div 10) @ [''0123456789'' ! (n mod 10)])"

declare str_nat.simps [simp del]

definition str_int :: "int \<Rightarrow> string" where
  \<comment> \<open>\<open>'{}'.format(i)\<close> for a Python int\<close>
  "str_int i = (if i < 0 then CHR ''-'' # str_nat (nat (- i)) else str_nat (nat i))"

subsection \<open>numpy operations used by the samplers\<close>

definition arange :: "nat \<Rightarrow> nat list" where
  "arange n = [0..<n]"

definition argsort :: "real list \<Rightarrow> nat list" where
  \<comment> \<open>Modelled from the spec: \<open>np.argsort\<close> is numpy's and not part of the sources. The
      indices of \<open>a\<close> in ascending order of value, by a stable sort: equal values keep
      their index order.\<close>
  "argsort a = sort_key (\<lambda>i. a ! i) [0..<length a]"

definition slice_from :: "int \<Rightarrow> 'a list \<Rightarrow> 'a list" where
  \<comment> \<open>Python's \<open>xs[k:]\<close>: a negative start counts from the end, and the start is clipped
      to the list.\<close>
  "slice_from k xs =
     (let n = int (length xs);
          start = (if k < 0 then max 0 (n + k) else min k n)
      in drop (nat start) xs)"

definition take_idx :: "'a list \<Rightarrow> nat list \<Rightarrow> error + 'a list" where
  \<comment> \<open>\<open>xs[idx]\<close> for an index array: the elements in the order of \<open>idx\<close>; an index out of
      range raises IndexError.\<close>
  "take_idx xs idx =
     (if list_all (\<lambda>i. i < length xs) idx then Inr (map (\<lambda>i. xs ! i) idx)
      else Inl IndexError)"

datatype npfloat = Finite real | PosInf | NegInf | NaN

definition np_divide :: "real \<Rightarrow> real \<Rightarrow> npfloat" where
  \<comment> \<open>float division as numpy does it: a zero divisor gives NaN or an infinity, not an
      exception\<close>
  "np_divide x y =
     (if y \<noteq> 0 then Finite (x / y)
      else if x = 0 then NaN else if 0 < x then PosInf else NegInf)"

definition normalize :: "real list \<Rightarrow> npfloat list" where
  \<comment> \<open>\<open>sample_scores / np.sum(sample_scores)\<close>\<close>
  "normalize sample_scores = map (\<lambda>s. np_divide s (sum_list sample_scores)) sample_scores"

definition square :: "real list \<Rightarrow> real list" where
  \<comment> \<open>\<open>sample_scores ** 2\<close>\<close>
  "square sample_scores = map (\<lambda>s. s ^ 2) sample_scores"

subsection \<open>BaseQuerySampler and ScoredQuerySampler\<close>

record base_query_sampler =
  batch_size :: int

record 'g scored_query_sampler = base_query_sampler +
  strategy :: string
  random_state :: 'g
  sample_scores_attr :: "real list option"

text \<open>
  \<open>random_state.choice(a, size=..., replace=False, p=...)\<close> is numpy's; it is a parameter
  of the model: from the generator state, the population, the size and the weights to the
  drawn sample (or the error raised) and the next generator state.
\<close>

type_synonym 'g choice_fn = "'g \<Rightarrow> nat list \<Rightarrow> int \<Rightarrow> npfloat list \<Rightarrow> (error + nat list) \<times> 'g"

definition not_enough_samples ::
  "'z base_query_sampler_scheme \<Rightarrow> 'a list \<Rightarrow> bool \<times> warning list" where
  "not_enough_samples self X =
     (let cond = int (length X) < batch_size self
      in (cond,
          if cond then
            [NotEnoughSamplesWarning
               (''Requested '' @ str_int (batch_size self) @
                '' samples but data only has '' @ str_int (int (length X)) @ ''.'')]
          else []))"

definition select_samples ::
  "('a list \<Rightarrow> real list) \<Rightarrow> 'g choice_fn \<Rightarrow> ('g, 'z) scored_query_sampler_scheme \<Rightarrow>
     'a list \<Rightarrow> (error + nat list) \<times> ('g, 'z) scored_query_sampler_scheme \<times> warning list" where
  "select_samples score_samples choice self X =
     (case not_enough_samples self X of
        (cond, ws) \<Rightarrow>
          if cond then (Inr (arange (length X)), self, ws)
          else
            let sample_scores = score_samples X;
                self1 = self\<lparr>sample_scores_attr := Some sample_scores\<rparr>
            in
              if strategy self1 = ''top'' then
                (Inr (slice_from (- batch_size self1) (argsort sample_scores)), self1, ws)
              else if strategy self1 = ''linear_choice'' then
                (case choice (random_state self1) (arange (length X)) (batch_size self1)
                        (normalize sample_scores) of
                   (r, g) \<Rightarrow> (r, self1\<lparr>random_state := g\<rparr>, ws))
              else if strategy self1 = ''squared_choice'' then
                (let sample_scores2 = square sample_scores
                 in case choice (random_state self1) (arange (length X)) (batch_size self1)
                           (normalize sample_scores2) of
                      (r, g) \<Rightarrow> (r, self1\<lparr>random_state := g\<rparr>, ws))
              else
                (Inl (ValueError (''Unknown sample selection strategy '' @ strategy self1)),
                 self1, ws))"

subsection \<open>The contract of \<open>choice\<close>\<close>

text \<open>
  What numpy documents for \<open>choice\<close> without replacement: when the size is between 0 and
  the population's, the weights are as many as the population, finite, non-negative and sum
  to 1, and at least \<open>size\<close> of them are non-zero, the call returns \<open>size\<close> elements of
  the population taken at distinct positions.
\<close>

definition fl_val :: "npfloat \<Rightarrow> real" where
  "fl_val x = (case x of Finite r \<Rightarrow> r | _ \<Rightarrow> 0)"

definition choice_args_ok :: "nat list \<Rightarrow> int \<Rightarrow> npfloat list \<Rightarrow> bool" where
  "choice_args_ok a sz p =
     (0 \<le> sz \<and> nat sz \<le> length a \<and> length p = length a \<and>
      list_all (\<lambda>x. case x of Finite r \<Rightarrow> 0 \<le> r | _ \<Rightarrow> False) p \<and>
      sum_list (map fl_val p) = 1 \<and>
      nat sz \<le> length (filter (\<lambda>x. x \<noteq> Finite 0) p))"


text \<open>
  One generator that meets the contract, for running the model on concrete inputs: it draws
  the first \<open>size\<close> elements of non-zero weight and leaves its state as it is.
\<close>

definition first_choice :: "'g choice_fn" where
  "first_choice g a sz p =
     (if choice_args_ok a sz p then
        Inr (take (nat sz) (map fst (filter (\<lambda>(x, w). w \<noteq> Finite 0) (zip a p))))
      else Inl (ValueError ''invalid arguments''), g)"

definition sampler0 :: "nat scored_query_sampler" where
  "sampler0 =
     \<lparr>batch_size = 2, strategy = ''top'', random_state = 0, sample_scores_attr = None\<rparr>"

subsection \<open>ChainQuerySampler\<close>

text \<open>
  The samplers of a chain are objects: a state and the methods the chain calls on it. \<open>fit\<close>
  and \<open>select_samples\<close> are the methods of \<open>BaseQuerySampler\<close>; \<open>predict\<close> is not one of
  them, so an object may lack it, and calling it then raises \<open>AttributeError\<close>.
\<close>

record ('a, 'l, 's) sampler_object =
  obj_state :: 's
  obj_fit :: "'s \<Rightarrow> 'a list \<Rightarrow> 'l list option \<Rightarrow> error + 's"
  obj_select_samples :: "'s \<Rightarrow> 'a list \<Rightarrow> (error + nat list) \<times> 's \<times> warning list"
  obj_predict :: "('s \<Rightarrow> 'a list \<Rightarrow> (error + nat list) \<times> 's \<times> warning list) option"

definition chain_fit ::
  "('a, 'l, 's) sampler_object list \<Rightarrow> 'a list \<Rightarrow> 'l list option \<Rightarrow>
     error + ('a, 'l, 's) sampler_object list" where
  "chain_fit sampler_list X y =
     (case sampler_list of
        [] \<Rightarrow> Inl IndexError
      | first # rest \<Rightarrow>
          (case obj_fit first (obj_state first) X y of
             Inl e \<Rightarrow> Inl e
           | Inr st \<Rightarrow> Inr (first\<lparr>obj_state := st\<rparr> # rest)))"

text \<open>
  The loop over \<open>sampler_list[1:]\<close>. The attribute \<open>predict\<close> is looked up before its
  argument \<open>X[selected]\<close> is evaluated. An exception leaves the samplers as they are at that
  point.
\<close>

fun chain_loop ::
  "'a list \<Rightarrow> nat list \<Rightarrow> ('a, 'l, 's) sampler_object list \<Rightarrow>
     (error + nat list) \<times> ('a, 'l, 's) sampler_object list \<times> warning list" where
  "chain_loop X selected [] = (Inr selected, [], [])"
| "chain_loop X selected (sampler # rest) =
     (case obj_fit sampler (obj_state sampler) X None of
        Inl e \<Rightarrow> (Inl e, sampler # rest, [])
      | Inr st1 \<Rightarrow>
          (case obj_predict sampler of
             None \<Rightarrow> (Inl (AttributeError ''predict''), sampler\<lparr>obj_state := st1\<rparr> # rest, [])
           | Some predict \<Rightarrow>
               (case take_idx X selected of
                  Inl e \<Rightarrow> (Inl e, sampler\<lparr>obj_state := st1\<rparr> # rest, [])
                | Inr rows \<Rightarrow>
                    (case predict st1 rows of
                       (Inl e, st2, ws) \<Rightarrow> (Inl e, sampler\<lparr>obj_state := st2\<rparr> # rest, ws)
                     | (Inr new_selected, st2, ws) \<Rightarrow>
                         (case take_idx selected new_selected of
                            Inl e \<Rightarrow> (Inl e, sampler\<lparr>obj_state := st2\<rparr> # rest, ws)
                          | Inr selected' \<Rightarrow>
                              (case chain_loop X selected' rest of
                                 (r, rest', ws') \<Rightarrow>
                                   (r, sampler\<lparr>obj_state := st2\<rparr> # rest', ws @ ws')))))))"

definition chain_select_samples ::
  "('a, 'l, 's) sampler_object list \<Rightarrow> 'a list \<Rightarrow>
     (error + nat list) \<times> ('a, 'l, 's) sampler_object list \<times> warning list" where
  "chain_select_samples sampler_list X =
     (case sampler_list of
        [] \<Rightarrow> (Inl IndexError, [], [])
      | first # rest \<Rightarrow>
          (case obj_select_samples first (obj_state first) X of
             (Inl e, st, ws) \<Rightarrow> (Inl e, first\<lparr>obj_state := st\<rparr> # rest, ws)
           | (Inr selected, st, ws) \<Rightarrow>
               (case chain_loop X selected rest of
                  (r, rest', ws') \<Rightarrow> (r, first\<lparr>obj_state := st\<rparr> # rest', ws @ ws'))))"

text \<open>
  A concrete subclass of \<open>ScoredQuerySampler\<close>, as an object: \<open>fit\<close> keeps the data it is
  given (a later call overrides an earlier one), \<open>score_samples\<close> may depend on it. The
  classes of \<open>base.py\<close> define no \<open>predict\<close>; \<open>with_predict\<close> says whether the subclass
  offers its \<open>select_samples\<close> under that name too.
\<close>

record ('g, 'a, 'l) fitted_sampler = "'g scored_query_sampler" +
  fitted :: "('a list \<times> 'l list option) option"

definition scored_object ::
  "(('a list \<times> 'l list option) option \<Rightarrow> 'a list \<Rightarrow> real list) \<Rightarrow> 'g choice_fn \<Rightarrow> bool \<Rightarrow>
     ('g, 'a, 'l) fitted_sampler \<Rightarrow> ('a, 'l, ('g, 'a, 'l) fitted_sampler) sampler_object" where
  "scored_object score_samples choice with_predict s =
     \<lparr>obj_state = s,
      obj_fit = (\<lambda>self X y. Inr (self\<lparr>fitted := Some (X, y)\<rparr>)),
      obj_select_samples = (\<lambda>self. select_samples (score_samples (fitted self)) choice self),
      obj_predict =
        (if with_predict
         then Some (\<lambda>self. select_samples (score_samples (fitted self)) choice self)
         else None)\<rparr>"

definition top_sampler :: "int \<Rightarrow> (nat, real, nat) fitted_sampler" where
  "top_sampler b =
     \<lparr>batch_size = b, strategy = ''top'', random_state = 0, sample_scores_attr = None,
      fitted = None\<rparr>"

text \<open>
  A sampler whose \<open>predict\<close>, whenever it returns, returns at most \<open>b\<close> pairwise distinct
  indices.
\<close>

definition returns_at_most :: "nat \<Rightarrow> ('a, 'l, 's) sampler_object \<Rightarrow> bool" where
  "returns_at_most b s =
     (\<forall>p st rows new st' ws.
        obj_predict s = Some p \<longrightarrow> p st rows = (Inr new, st', ws) \<longrightarrow>
        distinct new \<and> length new \<le> b)"

section \<open>Properties of ScoredQuerySampler.select_samples\<close>

lemma not_enough_samples_fst:
  "fst (not_enough_samples self X) = (int (length X) < batch_size self)"
  by (simp add: not_enough_samples_def Let_def)

lemma not_enough_samples_False:
  "\<not> int (length X) < batch_size self \<Longrightarrow> not_enough_samples self X = (False, [])"
  by (simp add: not_enough_samples_def Let_def)

text \<open>
  Claim C2. When the pool has fewer rows than \<open>batch_size\<close>, \<open>select_samples\<close> returns
  the indices \<open>0, \<dots>, poolSize - 1\<close> in ascending order, and issues one
  \<open>NotEnoughSamplesWarning\<close> whose message holds the requested count (\<open>batch_size\<close>) and
  the available count (the pool's size); the call succeeds (its result is not an error).
\<close>

theorem select_samples_not_enough:
  assumes "int (length X) < batch_size self"
  shows "fst (select_samples score_samples choice self X) = Inr [0..<length X] \<and>
         snd (snd (select_samples score_samples choice self X)) =
           [NotEnoughSamplesWarning
              (''Requested '' @ str_int (batch_size self) @
               '' samples but data only has '' @ str_int (int (length X)) @ ''.'')]"
  using assms by (simp add: select_samples_def not_enough_samples_def arange_def)

theorem select_samples_not_enough_witness:
  "fst (select_samples (\<lambda>X. X) first_choice (sampler0\<lparr>batch_size := 12\<rparr>) [1, 0, 1, 1, 100])
     = Inr [0, 1, 2, 3, 4] \<and>
   snd (snd (select_samples (\<lambda>X. X) first_choice (sampler0\<lparr>batch_size := 12\<rparr>) [1, 0, 1, 1, 100]))
     = [NotEnoughSamplesWarning ''Requested 12 samples but data only has 5.'']"
  using select_samples_not_enough [of "[1, 0, 1, 1, 100]" "sampler0\<lparr>batch_size := 12\<rparr>" "\<lambda>X. X" first_choice]
  by (simp add: sampler0_def str_int_def str_nat.simps upt_rec)

text \<open>
  Claim C6. When the pool has at least \<open>batch_size\<close> rows and the strategy is none of
  \<open>top\<close>, \<open>linear_choice\<close> and \<open>squared_choice\<close>, \<open>select_samples\<close> raises a
  \<open>ValueError\<close> whose message ends with the strategy it was given; no selection is returned.
\<close>

theorem select_samples_unknown_strategy:
  assumes "\<not> int (length X) < batch_size self"
    and "strategy self \<noteq> ''top''"
    and "strategy self \<noteq> ''linear_choice''"
    and "strategy self \<noteq> ''squared_choice''"
  shows "fst (select_samples score_samples choice self X) =
           Inl (ValueError (''Unknown sample selection strategy '' @ strategy self))"
  using assms by (simp add: select_samples_def not_enough_samples_False Let_def)

theorem select_samples_unknown_strategy_witness:
  "fst (select_samples (\<lambda>X. X) first_choice (sampler0\<lparr>strategy := ''bottom''\<rparr>)
          [1, 0, 1, 1, 100]) =
     Inl (ValueError ''Unknown sample selection strategy bottom'')"
  using select_samples_unknown_strategy
          [of "[1, 0, 1, 1, 100]" "sampler0\<lparr>strategy := ''bottom''\<rparr>" "\<lambda>X. X" first_choice]
  by (simp add: sampler0_def)

text \<open>
  Claim C9. The failure on an unknown strategy is not atomic: the call returns an error, and
  the instance it leaves has \<open>sample_scores_\<close> set to the scores just computed.
\<close>

theorem unknown_strategy_keeps_scores:
  assumes "\<not> int (length X) < batch_size self"
    and "strategy self \<noteq> ''top''"
    and "strategy self \<noteq> ''linear_choice''"
    and "strategy self \<noteq> ''squared_choice''"
  shows "(\<exists>e. fst (select_samples score_samples choice self X) = Inl e) \<and>
         fst (snd (select_samples score_samples choice self X)) =
           self\<lparr>sample_scores_attr := Some (score_samples X)\<rparr>"
  using assms by (simp add: select_samples_def not_enough_samples_False Let_def)

theorem unknown_strategy_keeps_scores_witness:
  "(\<exists>e. fst (select_samples (\<lambda>X. X) first_choice (sampler0\<lparr>strategy := ''bottom''\<rparr>)
            [1, 0, 1, 1, 100]) = Inl e) \<and>
   sample_scores_attr (sampler0\<lparr>strategy := ''bottom''\<rparr>) = None \<and>
   sample_scores_attr (fst (snd (select_samples (\<lambda>X. X) first_choice
      (sampler0\<lparr>strategy := ''bottom''\<rparr>) [1, 0, 1, 1, 100]))) = Some [1, 0, 1, 1, 100]"
  using unknown_strategy_keeps_scores
          [of "[1, 0, 1, 1, 100]" "sampler0\<lparr>strategy := ''bottom''\<rparr>" "\<lambda>X. X" first_choice]
  by (simp add: sampler0_def)

text \<open>
  Claim C10. When the pool has fewer rows than \<open>batch_size\<close>, the call leaves the instance
  exactly as it was (so \<open>sample_scores_\<close> keeps its earlier value, or stays absent), and its
  outcome does not depend on the scoring function or on the generator: neither is called.
\<close>

theorem degenerate_pool_leaves_instance:
  assumes "int (length X) < batch_size self"
  shows "fst (snd (select_samples score_samples choice self X)) = self \<and>
         select_samples score_samples choice self X =
           select_samples score_samples' choice' self X"
  using assms by (simp add: select_samples_def not_enough_samples_def)

theorem degenerate_pool_leaves_instance_witness:
  "fst (snd (select_samples (\<lambda>X. X) first_choice
      (sampler0\<lparr>batch_size := 12, sample_scores_attr := Some [4, 2]\<rparr>) [1, 0, 1, 1, 100::real])) =
     sampler0\<lparr>batch_size := 12, sample_scores_attr := Some [4, 2]\<rparr> \<and>
   select_samples (\<lambda>X. X) first_choice
      (sampler0\<lparr>batch_size := 12, sample_scores_attr := Some [4, 2]\<rparr>) [1, 0, 1, 1, 100::real] =
   select_samples (\<lambda>X. []) (\<lambda>g a k p. (Inl IndexError, g))
      (sampler0\<lparr>batch_size := 12, sample_scores_attr := Some [4, 2]\<rparr>) [1, 0, 1, 1, 100::real]"
proof -
  have h: "int (length [1, 0, 1, 1, 100::real]) <
           batch_size (sampler0\<lparr>batch_size := 12, sample_scores_attr := Some [4, 2]\<rparr>)"
    by (simp add: sampler0_def)
  show ?thesis
    by (rule degenerate_pool_leaves_instance [OF h])
qed

text \<open>
  Claim C8. Under \<open>squared_choice\<close>, with at least \<open>batch_size\<close> rows in the pool, the
  instance's \<open>sample_scores_\<close> after the call is what \<open>score_samples\<close> returned, not the
  squared weights used for the draw.
\<close>

theorem squared_choice_caches_raw_scores:
  assumes "\<not> int (length X) < batch_size self"
    and "strategy self = ''squared_choice''"
  shows "sample_scores_attr (fst (snd (select_samples score_samples choice self X))) =
           Some (score_samples X)"
  using assms
  by (simp add: select_samples_def not_enough_samples_False Let_def split: prod.splits)

theorem squared_choice_caches_raw_scores_witness:
  "sample_scores_attr (fst (snd (select_samples (\<lambda>X. X) first_choice
      (sampler0\<lparr>strategy := ''squared_choice''\<rparr>) [1, 0, 1, 1, 100]))) = Some [1, 0, 1, 1, 100] \<and>
   square [1, 0, 1, 1, 100] = [1, 0, 1, 1, 10000]"
  using squared_choice_caches_raw_scores
          [of "[1, 0, 1, 1, 100]" "sampler0\<lparr>strategy := ''squared_choice''\<rparr>" "\<lambda>X. X" first_choice]
  by (simp add: sampler0_def square_def)



subsection \<open>The \<open>top\<close> strategy\<close>




lemma argsort_length: "length (argsort a) = length a"
  by (simp add: argsort_def)

lemma argsort_set: "set (argsort a) = {..<length a}"
  by (auto simp: argsort_def)

lemma argsort_distinct: "distinct (argsort a)"
  by (simp add: argsort_def)


lemma slice_from_last:
  assumes "0 < b" and "b \<le> int (length xs)"
  shows "slice_from (- b) xs = drop (length xs - nat b) xs"
proof -
  have "nat (int (length xs) - b) = length xs - nat b" using assms by linarith
  with assms show ?thesis by (simp add: slice_from_def Let_def)
qed


text \<open>
  The slice \<open>[-batch_size:]\<close> is the whole array when \<open>batch_size\<close> is 0: the properties
  below are for a positive batch size, as the data model has it.
\<close>

lemma select_samples_top_batch_zero:
  assumes "strategy self = ''top''" and "batch_size self = 0"
  shows "fst (select_samples score_samples choice self X) = Inr (argsort (score_samples X))"
  using assms by (simp add: select_samples_def not_enough_samples_def slice_from_def Let_def)



subsection \<open>Size and validity of the selection\<close>














section \<open>Properties of ChainQuerySampler.select_samples\<close>

text \<open>
  Claim C3, as amended. For every sampler after the first that offers \<open>predict\<close>: it is
  fit on the rows of the whole pool \<open>X\<close>, with no label argument; \<open>predict\<close> is then called,
  on the state the fit left, with the rows of the already-selected subset; and the sub-indices
  it returns are composed with the previous index array (\<open>selected[new_selected]\<close>) before
  the loop goes on with the remaining samplers.
\<close>

theorem chain_loop_step:
  assumes "obj_predict sampler = Some predict"
    and "obj_fit sampler (obj_state sampler) X None = Inr st1"
    and "take_idx X selected = Inr rows"
    and "predict st1 rows = (Inr new_selected, st2, ws)"
    and "list_all (\<lambda>i. i < length selected) new_selected"
  shows "chain_loop X selected (sampler # rest) =
           (case chain_loop X (map (\<lambda>i. selected ! i) new_selected) rest of
              (r, rest', ws') \<Rightarrow> (r, sampler\<lparr>obj_state := st2\<rparr> # rest', ws @ ws'))"
  using assms by (simp add: take_idx_def)

theorem chain_loop_step_witness:
  "chain_loop [5, 1, 9] [0, 2] [scored_object (\<lambda>f X. X) first_choice True (top_sampler 1)] =
     (Inr [2],
      [(scored_object (\<lambda>f X. X) first_choice True (top_sampler 1))
         \<lparr>obj_state := (top_sampler 1)
            \<lparr>sample_scores_attr := Some [5, 9], fitted := Some ([5, 1, 9], None)\<rparr>\<rparr>],
      [])"
proof -
  let ?s = "scored_object (\<lambda>f X. X) first_choice True (top_sampler 1)
              :: (real, nat, (nat, real, nat) fitted_sampler) sampler_object"
  let ?p = "\<lambda>self. select_samples ((\<lambda>f X. X) (fitted self)) first_choice self"
  let ?st1 = "(top_sampler 1)\<lparr>fitted := Some ([5, 1, 9], None)\<rparr>"
  let ?st2 = "(top_sampler 1)\<lparr>sample_scores_attr := Some [5, 9], fitted := Some ([5, 1, 9], None)\<rparr>"
  have 1: "obj_predict ?s = Some ?p" by (simp add: scored_object_def)
  have 2: "obj_fit ?s (obj_state ?s) [5, 1, 9] None = Inr ?st1" by (simp add: scored_object_def)
  have 3: "take_idx [5, 1, 9 :: real] [0, 2] = Inr [5, 9]" by (simp add: take_idx_def)
  have 4: "?p ?st1 [5, 9] = (Inr [1], ?st2, [])" by code_simp
  have 5: "list_all (\<lambda>i. i < length [0, 2 :: nat]) [1]" by simp
  show ?thesis
    using chain_loop_step [OF 1 2 3 4 5, of "[]"] by simp
qed

text \<open>
  Claim C3 as stated has the later sampler fit on the rows of the selected subset only. On
  the pool \<open>[5, 1, 9]\<close> the first sampler (\<open>top\<close>, batch size 2) selects the indices
  \<open>[0, 2]\<close>, whose rows are \<open>[5, 9]\<close>; the second sampler is fit with \<open>[5, 1, 9]\<close>.
\<close>

theorem chain_fit_whole_pool_counterexample:
  "fst (obj_select_samples (scored_object (\<lambda>f X. X) first_choice False (top_sampler 2))
          (top_sampler 2) [5, 1, 9]) = Inr [0, 2] \<and>
   take_idx [5, 1, 9 :: real] [0, 2] = Inr [5, 9] \<and>
   map (\<lambda>s. fitted (obj_state s))
     (fst (snd (chain_select_samples
        [scored_object (\<lambda>f X. X) first_choice False (top_sampler 2),
         scored_object (\<lambda>f X. X) first_choice True (top_sampler 1)] [5, 1, 9]))) =
     [None, Some ([5, 1, 9], None)] \<and>
   Some ([5, 1, 9 :: real], None :: nat list option) \<noteq> Some ([5, 9], None)"
  by code_simp

text \<open>
  Claim C5. The classes of \<open>base.py\<close> define \<open>select_samples\<close> and no \<open>predict\<close>, which
  is what the loop calls on every sampler after the first: a chain of two \<open>top\<close> samplers
  with batch sizes 2 and 1 on a pool of 3 rows raises \<open>AttributeError\<close> and returns no
  selection.
\<close>

theorem chain_two_top_samplers_attribute_error:
  "fst (chain_select_samples
          [scored_object (\<lambda>f X. X) first_choice False (top_sampler 2),
           scored_object (\<lambda>f X. X) first_choice False (top_sampler 1)] [5, 1, 9]) =
     Inl (AttributeError ''predict'')"
  by code_simp

subsection \<open>The chain never grows the selection\<close>

text \<open>
  Whatever the later samplers are, a chain that returns a selection returns indices of the
  first sampler's selection, and no more of them than any later sampler's \<open>predict\<close> may
  return.
\<close>

lemma take_idx_Inr:
  "take_idx xs idx = Inr ys \<Longrightarrow> ys = map (\<lambda>i. xs ! i) idx \<and> (\<forall>i\<in>set idx. i < length xs)"
  by (auto simp: take_idx_def list_all_iff split: if_splits)

lemma distinct_indices_length:
  assumes "distinct idx" and "\<forall>i\<in>set idx. i < n"
  shows "length idx \<le> n"
proof -
  have "set idx \<subseteq> {..<n}" using assms(2) by auto
  then have "card (set idx) \<le> card {..<n}" by (intro card_mono) simp_all
  then show ?thesis using assms(1) by (simp add: distinct_card)
qed

lemma chain_loop_Cons_Inr:
  assumes "chain_loop X selected (sampler # rest) = (Inr final, ss, ws)"
  obtains predict st1 rows new_selected st2 ws1 rest' ws2 where
    "obj_fit sampler (obj_state sampler) X None = Inr st1"
    "obj_predict sampler = Some predict"
    "take_idx X selected = Inr rows"
    "predict st1 rows = (Inr new_selected, st2, ws1)"
    "\<forall>i\<in>set new_selected. i < length selected"
    "chain_loop X (map (\<lambda>i. selected ! i) new_selected) rest = (Inr final, rest', ws2)"
    "ss = sampler\<lparr>obj_state := st2\<rparr> # rest'"
    "ws = ws1 @ ws2"
  using assms
  by (auto split: sum.splits option.splits prod.splits dest!: take_idx_Inr)

lemma chain_loop_subset:
  "chain_loop X selected rest = (Inr final, ss, ws) \<Longrightarrow> set final \<subseteq> set selected"
proof (induction rest arbitrary: selected ss ws)
  case Nil
  then show ?case by simp
next
  case (Cons sampler rest)
  from Cons.prems obtain new_selected rest' ws2 where
    new: "\<forall>i\<in>set new_selected. i < length selected" and
    rec: "chain_loop X (map (\<lambda>i. selected ! i) new_selected) rest = (Inr final, rest', ws2)"
    by (rule chain_loop_Cons_Inr)
  from Cons.IH [OF rec] have "set final \<subseteq> set (map (\<lambda>i. selected ! i) new_selected)" .
  also have "\<dots> \<subseteq> set selected" using new by auto
  finally show ?case .
qed

lemma returns_at_mostD:
  "returns_at_most b s \<Longrightarrow> obj_predict s = Some p \<Longrightarrow> p st rows = (Inr new, st', ws) \<Longrightarrow>
   distinct new \<and> length new \<le> b"
  unfolding returns_at_most_def by blast

lemma chain_loop_length:
  assumes "chain_loop X selected rest = (Inr final, ss, ws)"
    and "\<forall>s\<in>set rest. returns_at_most (bound s) s"
  shows "length final \<le> length selected \<and> (\<forall>s\<in>set rest. length final \<le> bound s)"
  using assms
proof (induction rest arbitrary: selected ss ws)
  case Nil
  then show ?case by simp
next
  case (Cons sampler rest)
  from Cons.prems(1) obtain predict st1 rows new_selected st2 ws1 rest' ws2 where
    p: "obj_predict sampler = Some predict" and
    call: "predict st1 rows = (Inr new_selected, st2, ws1)" and
    new: "\<forall>i\<in>set new_selected. i < length selected" and
    rec: "chain_loop X (map (\<lambda>i. selected ! i) new_selected) rest = (Inr final, rest', ws2)"
    by (rule chain_loop_Cons_Inr)
  from Cons.prems(2) have "returns_at_most (bound sampler) sampler" by simp
  from returns_at_mostD [OF this p call]
  have d: "distinct new_selected" and b: "length new_selected \<le> bound sampler"
    by simp_all
  from Cons.prems(2) have rest_ok: "\<forall>s\<in>set rest. returns_at_most (bound s) s"
    by simp
  from Cons.IH [OF rec rest_ok]
  have ih: "length final \<le> length new_selected" "\<forall>s\<in>set rest. length final \<le> bound s"
    by simp_all
  have "length new_selected \<le> length selected" using d new by (rule distinct_indices_length)
  with ih b show ?case by auto
qed

lemma chain_select_samples_bounded:
  assumes "chain_select_samples (first # rest) X = (Inr final, ss, ws)"
    and "\<forall>s\<in>set rest. returns_at_most (bound s) s"
  shows "\<exists>sel1 st1 ws1.
           obj_select_samples first (obj_state first) X = (Inr sel1, st1, ws1) \<and>
           set final \<subseteq> set sel1 \<and> length final \<le> length sel1 \<and>
           (\<forall>s\<in>set rest. length final \<le> bound s)"
proof -
  from assms(1) obtain sel1 st1 ws1 rest' ws2 where
    first: "obj_select_samples first (obj_state first) X = (Inr sel1, st1, ws1)" and
    loop: "chain_loop X sel1 rest = (Inr final, rest', ws2)"
    by (auto simp: chain_select_samples_def split: sum.splits prod.splits)
  from chain_loop_subset [OF loop] chain_loop_length [OF loop assms(2)] first
  show ?thesis by blast
qed

lemma select_samples_top_full:
  assumes "strategy self = ''top''"
    and "0 < batch_size self"
    and "batch_size self \<le> int (length X)"
    and "length (score_samples X) = length X"
  shows "select_samples score_samples choice self X =
           (Inr (drop (length X - nat (batch_size self)) (argsort (score_samples X))),
            self\<lparr>sample_scores_attr := Some (score_samples X)\<rparr>, [])"
proof -
  have "\<not> int (length X) < batch_size self" using assms(3) by simp
  moreover have "slice_from (- batch_size self) (argsort (score_samples X)) =
      drop (length X - nat (batch_size self)) (argsort (score_samples X))"
    using slice_from_last [of "batch_size self" "argsort (score_samples X)"] assms(2-4)
    by (simp add: argsort_length)
  ultimately show ?thesis
    using assms(1) by (simp add: select_samples_def not_enough_samples_False Let_def)
qed

lemma top_slice_indices:
  assumes "length a = n" and "k \<le> n"
  shows "length (drop (n - k) (argsort a)) = k"
    and "distinct (drop (n - k) (argsort a))"
    and "\<forall>i\<in>set (drop (n - k) (argsort a)). i < n"
proof -
  show "length (drop (n - k) (argsort a)) = k" using assms by (simp add: argsort_length)
  show "distinct (drop (n - k) (argsort a))" by (simp add: argsort_distinct)
  have "set (drop (n - k) (argsort a)) \<subseteq> set (argsort a)" by (rule set_drop_subset)
  then show "\<forall>i\<in>set (drop (n - k) (argsort a)). i < n"
    using assms(1) by (auto simp: argsort_set)
qed

text \<open>
  Were \<open>predict\<close> the second sampler's \<open>select_samples\<close>, two \<open>top\<close> samplers with batch
  sizes \<open>b1 \<ge> b2 > 0\<close> on a pool of more than \<open>b1\<close> rows would select exactly \<open>b2\<close>
  indices, all among the \<open>b1\<close> indices the first sampler selects alone.
\<close>

lemma chain_two_top_with_predict:
  fixes s1 s2 :: "('g, 'a, 'l) fitted_sampler"
  assumes top: "strategy s1 = ''top''" "strategy s2 = ''top''"
    and b: "0 < batch_size s2" "batch_size s2 \<le> batch_size s1" "batch_size s1 < int (length X)"
    and sc1: "\<And>f rows. length (sc1 f rows) = length rows"
    and sc2: "\<And>f rows. length (sc2 f rows) = length rows"
  shows "\<exists>sel1 sel.
           fst (select_samples (sc1 (fitted s1)) ch1 s1 X) = Inr sel1 \<and>
           length sel1 = nat (batch_size s1) \<and>
           fst (chain_select_samples
                  [scored_object sc1 ch1 wp s1, scored_object sc2 ch2 True s2] X) = Inr sel \<and>
           length sel = nat (batch_size s2) \<and> distinct sel \<and> set sel \<subseteq> set sel1"
proof -
  define k1 where "k1 = nat (batch_size s1)"
  define k2 where "k2 = nat (batch_size s2)"
  define sel1 where "sel1 = drop (length X - k1) (argsort (sc1 (fitted s1) X))"
  define st1 where "st1 = s1\<lparr>sample_scores_attr := Some (sc1 (fitted s1) X)\<rparr>"
  define t1 where "t1 = s2\<lparr>fitted := Some (X, None)\<rparr>"
  define rows where "rows = map (\<lambda>i. X ! i) sel1"
  define new where "new = drop (k1 - k2) (argsort (sc2 (Some (X, None)) rows))"
  define t2 where "t2 = t1\<lparr>sample_scores_attr := Some (sc2 (Some (X, None)) rows)\<rparr>"
  define sel where "sel = map (\<lambda>i. sel1 ! i) new"
  have k1: "k1 \<le> length X" and k2: "k2 \<le> k1" and k2pos: "0 < k2"
    using b unfolding k1_def k2_def by linarith+
  have b1: "0 < batch_size s1" "batch_size s1 \<le> int (length X)" using b by linarith+
  have first: "select_samples (sc1 (fitted s1)) ch1 s1 X = (Inr sel1, st1, [])"
    unfolding sel1_def st1_def k1_def
    by (rule select_samples_top_full [where score_samples = "sc1 (fitted s1)", OF top(1) b1 sc1 [of "fitted s1" X]])
  have s1f: "length sel1 = k1" "distinct sel1" "\<forall>i\<in>set sel1. i < length X"
    unfolding sel1_def by (rule top_slice_indices [OF sc1 [of "fitted s1" X] k1])+
  have rows_ok: "take_idx X sel1 = Inr rows"
    unfolding rows_def using s1f(3) by (simp add: take_idx_def list_all_iff)
  have len_rows: "length rows = k1" unfolding rows_def using s1f(1) by simp
  have t1f: "strategy t1 = ''top''" "0 < batch_size t1" "batch_size t1 \<le> int (length rows)"
    "fitted t1 = Some (X, None)" "nat (batch_size t1) = k2"
    using top(2) b len_rows unfolding t1_def k1_def k2_def by simp_all
  have "select_samples (sc2 (Some (X, None))) ch2 t1 rows =
      (Inr (drop (length rows - nat (batch_size t1)) (argsort (sc2 (Some (X, None)) rows))),
       t1\<lparr>sample_scores_attr := Some (sc2 (Some (X, None)) rows)\<rparr>, [])"
    by (rule select_samples_top_full [where score_samples = "sc2 (Some (X, None))", OF t1f(1-3) sc2 [of "Some (X, None)" rows]])
  then have second: "select_samples (sc2 (Some (X, None))) ch2 t1 rows = (Inr new, t2, [])"
    unfolding new_def t2_def by (simp only: len_rows t1f(5))
  have l2: "length (sc2 (Some (X, None)) rows) = k1" using sc2 len_rows by simp
  have nf: "length new = k2" "distinct new" "\<forall>i\<in>set new. i < k1"
    unfolding new_def by (rule top_slice_indices [OF l2 k2])+
  have comp: "take_idx sel1 new = Inr sel"
    unfolding sel_def using nf(3) s1f(1) by (simp add: take_idx_def list_all_iff)
  have loop: "chain_loop X sel1 [scored_object sc2 ch2 True s2] =
      (Inr sel, [(scored_object sc2 ch2 True s2)\<lparr>obj_state := t2\<rparr>], [])"
    using rows_ok second comp t1f(4)
    by (simp add: scored_object_def t1_def [symmetric])
  define A where "A = scored_object sc1 ch1 wp s1"
  define B where "B = scored_object sc2 ch2 True s2"
  have sel_first: "obj_select_samples A (obj_state A) X = (Inr sel1, st1, [])"
    unfolding A_def by (simp add: scored_object_def first)
  have loopB: "chain_loop X sel1 [B] = (Inr sel, [B\<lparr>obj_state := t2\<rparr>], [])"
    unfolding B_def by (rule loop)
  have "fst (chain_select_samples [A, B] X) = Inr sel"
    unfolding chain_select_samples_def
    by (simp add: sel_first loopB del: chain_loop.simps)
  then have chain: "fst (chain_select_samples
      [scored_object sc1 ch1 wp s1, scored_object sc2 ch2 True s2] X) = Inr sel"
    unfolding A_def B_def .
  have "inj_on (\<lambda>i. sel1 ! i) (set new)"
    using s1f(1,2) nf(3) by (auto simp: inj_on_def nth_eq_iff_index_eq)
  then have dist: "distinct sel" unfolding sel_def using nf(2) by (simp add: distinct_map)
  have sub: "set sel \<subseteq> set sel1" unfolding sel_def using nf(3) s1f(1) by auto
  have len: "length sel = k2" unfolding sel_def using nf(1) by simp
  from first s1f(1) chain len dist sub show ?thesis
    unfolding k1_def k2_def by (intro exI [of _ sel1] exI [of _ sel]) simp
qed

end
